theory Spec2Isabelle
  imports Main "HOL-Library.Multiset"
begin

section \<open>Values of the Python runtime\<close>

text \<open>
  The program is a single Python module, \<^verbatim>\<open>email_parser.py\<close>. Its functions talk to an
  IMAP server, an SMTP server, a remote chat-completion service and the operator's
  terminal. The embedding keeps the control flow of each function and takes what those
  collaborators and the standard library answer as data of the run, so that every
  branch of the source, also every branch that raises, is a branch of the model.

  Python \<^verbatim>\<open>str\<close> values are modelled as \<^typ>\<open>string\<close>, one \<^typ>\<open>char\<close> per code point
  (code points below 256). Values decoded from JSON are trees; a JSON object is the list
  of the items of the resulting \<^verbatim>\<open>dict\<close>, looked up by key.
\<close>

datatype json =
    JNull
  | JBool bool
  | JInt int
  | JFloat string
  | JStr string
  | JArr "json list"
  | JObj "(string \<times> json) list"

text \<open>An exception: the name of its class and the text that \<^verbatim>\<open>str(e)\<close> gives.\<close>

datatype exn = Exn (exn_class: string) (exn_str: string)

definition quoted :: "string \<Rightarrow> string" where
  "quoted s = CHR 0x27 # s @ [CHR 0x27]"

fun type_name :: "json \<Rightarrow> string" where
  "type_name JNull = ''NoneType''"
| "type_name (JBool _) = ''bool''"
| "type_name (JInt _) = ''int''"
| "type_name (JFloat _) = ''float''"
| "type_name (JStr _) = ''str''"
| "type_name (JArr _) = ''list''"
| "type_name (JObj _) = ''dict''"

definition not_subscriptable :: "json \<Rightarrow> exn" where
  "not_subscriptable v = Exn ''TypeError'' (quoted (type_name v) @ '' object is not subscriptable'')"

text \<open>\<^verbatim>\<open>v[k]\<close> for a string key \<open>k\<close>, with the exceptions of CPython 3.11.\<close>

fun getitem_key :: "json \<Rightarrow> string \<Rightarrow> exn + json" where
  "getitem_key (JObj kvs) k =
     (case map_of kvs k of Some v \<Rightarrow> Inr v | None \<Rightarrow> Inl (Exn ''KeyError'' (quoted k)))"
| "getitem_key (JArr xs) k =
     Inl (Exn ''TypeError'' ''list indices must be integers or slices, not str'')"
| "getitem_key (JStr s) k =
     Inl (Exn ''TypeError'' (''string indices must be integers, not '' @ quoted ''str''))"
| "getitem_key v k = Inl (not_subscriptable v)"

text \<open>\<^verbatim>\<open>v[0]\<close>. The keys of a decoded JSON object are strings, so \<open>0\<close> is never a key.\<close>

fun getitem_0 :: "json \<Rightarrow> exn + json" where
  "getitem_0 (JArr []) = Inl (Exn ''IndexError'' ''list index out of range'')"
| "getitem_0 (JArr (x # xs)) = Inr x"
| "getitem_0 (JStr []) = Inl (Exn ''IndexError'' ''string index out of range'')"
| "getitem_0 (JStr (c # cs)) = Inr (JStr [c])"
| "getitem_0 (JObj kvs) = Inl (Exn ''KeyError'' ''0'')"
| "getitem_0 v = Inl (not_subscriptable v)"

text \<open>
  \<^verbatim>\<open>d.get(k, default)\<close>: only a \<^verbatim>\<open>dict\<close> has the method; on any other decoded value the
  attribute lookup raises \<^verbatim>\<open>AttributeError\<close>.
\<close>

fun dict_get :: "json \<Rightarrow> string \<Rightarrow> json \<Rightarrow> exn + json" where
  "dict_get (JObj kvs) k d = Inr (case map_of kvs k of Some v \<Rightarrow> v | None \<Rightarrow> d)"
| "dict_get v k d =
     Inl (Exn ''AttributeError'' (quoted (type_name v) @ '' object has no attribute '' @ quoted ''get''))"

subsection \<open>Whitespace\<close>

text \<open>
  \<^verbatim>\<open>str.isspace\<close>, and the class \<^verbatim>\<open>\s\<close> of \<^verbatim>\<open>re\<close> on \<^verbatim>\<open>str\<close> patterns, below code point 256:
  9 to 13, 28 to 32, 133 and 160.
\<close>

definition isspace :: "char \<Rightarrow> bool" where
  "isspace c = (let n = (of_char c :: nat) in
     (9 \<le> n \<and> n \<le> 13) \<or> (28 \<le> n \<and> n \<le> 32) \<or> n = 133 \<or> n = 160)"

definition strip :: "string \<Rightarrow> string" where
  "strip s = rev (dropWhile isspace (rev (dropWhile isspace s)))"

section \<open>The remote service\<close>

text \<open>
  What one call of the remote service does, as the two clients see it:
  \<^item> \<open>host_lookup\<close>: \<^verbatim>\<open>socket.gethostbyname(socket.gethostname())\<close> raises, or not;
  \<^item> \<open>post\<close>: \<^verbatim>\<open>session.post\<close> raises (after the retries of the transport adapter), or
    returns a response;
  \<^item> \<open>content_loads\<close>: what \<^verbatim>\<open>json.loads\<close> makes of the message content when that
    content is a string: the decoded value, or the exception it raises.
  A response has its status code, the text of the \<^verbatim>\<open>HTTPError\<close> that \<^verbatim>\<open>raise_for_status\<close>
  raises for that status, and what \<^verbatim>\<open>response.json()\<close> gives.
\<close>

record http_response =
  status_code :: nat
  http_error :: string
  json_body :: "exn + json"

record remote_call =
  host_lookup :: "exn option"
  post :: "exn + http_response"
  content_loads :: "exn + json"

text \<open>\<^verbatim>\<open>response.raise_for_status()\<close> raises for the status codes 400 to 599.\<close>

definition raise_for_status :: "http_response \<Rightarrow> exn option" where
  "raise_for_status r =
     (if 400 \<le> status_code r \<and> status_code r < 600
      then Some (Exn ''HTTPError'' (http_error r)) else None)"

text \<open>\<^verbatim>\<open>result["choices"][0]["message"]["content"]\<close>\<close>

definition message_content :: "json \<Rightarrow> exn + json" where
  "message_content result =
     (case getitem_key result ''choices'' of
        Inl e \<Rightarrow> Inl e
      | Inr choices \<Rightarrow>
         (case getitem_0 choices of
            Inl e \<Rightarrow> Inl e
          | Inr choice \<Rightarrow>
             (case getitem_key choice ''message'' of
                Inl e \<Rightarrow> Inl e
              | Inr message \<Rightarrow> getitem_key message ''content'')))"

text \<open>
  The statements that both clients run first inside their \<^verbatim>\<open>try\<close>: the host lookup, the
  post, \<^verbatim>\<open>raise_for_status\<close>, \<^verbatim>\<open>response.json()\<close> and the selection of the content.
  The value is the content, or the first exception raised.
\<close>

definition request_content :: "remote_call \<Rightarrow> exn + json" where
  "request_content c =
     (case host_lookup c of
        Some e \<Rightarrow> Inl e
      | None \<Rightarrow>
         (case post c of
            Inl e \<Rightarrow> Inl e
          | Inr r \<Rightarrow>
             (case raise_for_status r of
                Some e \<Rightarrow> Inl e
              | None \<Rightarrow>
                 (case json_body r of
                    Inl e \<Rightarrow> Inl e
                  | Inr result \<Rightarrow> message_content result))))"

subsection \<open>Analysis client\<close>

definition parse_failure :: json where
  "parse_failure = JObj
     [(''urgency'', JStr ''Unknown''),
      (''reasoning'', JStr ''Failed to parse API response''),
      (''summary'', JStr ''Unable to summarize due to invalid response format'')]"

definition api_failure :: "exn \<Rightarrow> json" where
  "api_failure e = JObj
     [(''urgency'', JStr ''Unknown''),
      (''reasoning'', JStr (''API error: '' @ exn_str e)),
      (''summary'', JStr ''Unable to summarize due to API failure'')]"

text \<open>
  \<^verbatim>\<open>analyze_email_with_xai(subject, body)\<close>. The subject and the body go into the prompt
  and the log only. \<^verbatim>\<open>json.loads\<close> of a content that is no string raises \<^verbatim>\<open>TypeError\<close>;
  the inner handler catches \<^verbatim>\<open>json.JSONDecodeError\<close> alone, the outer one every
  \<^verbatim>\<open>Exception\<close>.
\<close>

definition analyze_email_with_xai :: "remote_call \<Rightarrow> string \<Rightarrow> string \<Rightarrow> json" where
  "analyze_email_with_xai c subject body =
     (case request_content c of
        Inl e \<Rightarrow> api_failure e
      | Inr content \<Rightarrow>
         (case content of
            JStr text \<Rightarrow>
              (case content_loads c of
                 Inr parsed_response \<Rightarrow> parsed_response
               | Inl e \<Rightarrow>
                  if exn_class e = ''JSONDecodeError'' then parse_failure else api_failure e)
          | _ \<Rightarrow> api_failure (Exn ''TypeError''
                 (''the JSON object must be str, bytes or bytearray, not '' @ type_name content))))"

subsection \<open>Response drafting client\<close>

definition fallback_response :: string where
  "fallback_response = ''Thank you for your email. I will get back to you soon.''"

text \<open>
  \<^verbatim>\<open>generate_response_with_xai(subject, body)\<close>. Only a \<^verbatim>\<open>str\<close> has \<^verbatim>\<open>strip\<close>; on any
  other content the attribute lookup raises and the handler returns the fallback.
\<close>

definition generate_response_with_xai :: "remote_call \<Rightarrow> string \<Rightarrow> string \<Rightarrow> string" where
  "generate_response_with_xai c subject body =
     (case request_content c of
        Inl e \<Rightarrow> fallback_response
      | Inr content \<Rightarrow>
         (case content of
            JStr text \<Rightarrow> strip text
          | _ \<Rightarrow> fallback_response))"

section \<open>Content normalizer\<close>

text \<open>
  \<^verbatim>\<open>re.sub(r'\s+', ' ', text)\<close>: every maximal run of whitespace becomes one space.
\<close>

function sub_spaces :: "string \<Rightarrow> string" where
  "sub_spaces [] = []"
| "sub_spaces (c # cs) =
     (if isspace c then CHR '' '' # sub_spaces (dropWhile isspace cs) else c # sub_spaces cs)"
  by pat_completeness auto
termination
  by (relation "measure length") (auto simp: length_dropWhile_le less_Suc_eq_le)

text \<open>
  \<^verbatim>\<open>clean_html(raw_html)\<close>. The argument of the model is \<^verbatim>\<open>soup.get_text()\<close>, the text that
  BeautifulSoup extracts from \<^verbatim>\<open>raw_html\<close>; the function does the rest.
\<close>

definition clean_html :: "string \<Rightarrow> string" where
  "clean_html text = strip (sub_spaces text)"

text \<open>
  A parsed message, as \<^verbatim>\<open>email.message_from_bytes\<close> builds it. A leaf has its content
  type, its payload after \<^verbatim>\<open>get_payload(decode=True).decode(errors="ignore")\<close>, and the
  text BeautifulSoup extracts from that payload. A container has its content type and
  its parts; \<^verbatim>\<open>get_payload(decode=True)\<close> of a container is \<^verbatim>\<open>None\<close>.
\<close>

datatype mime_part =
    Leaf string string string
  | Container string "mime_part list"

fun get_content_type :: "mime_part \<Rightarrow> string" where
  "get_content_type (Leaf ct p t) = ct"
| "get_content_type (Container ct ps) = ct"

fun is_multipart :: "mime_part \<Rightarrow> bool" where
  "is_multipart (Leaf ct p t) = False"
| "is_multipart (Container ct ps) = True"

text \<open>\<^verbatim>\<open>msg.walk()\<close>: the part itself, then the walk of each of its parts, in order.\<close>

fun walk :: "mime_part \<Rightarrow> mime_part list" where
  "walk (Leaf ct p t) = [Leaf ct p t]"
| "walk (Container ct ps) = Container ct ps # concat (map walk ps)"

fun decoded_payload :: "mime_part \<Rightarrow> exn + string" where
  "decoded_payload (Leaf ct p t) = Inr p"
| "decoded_payload (Container ct ps) =
     Inl (Exn ''AttributeError'' (quoted ''NoneType'' @ '' object has no attribute '' @ quoted ''decode''))"

fun soup_text :: "mime_part \<Rightarrow> string" where
  "soup_text (Leaf ct p t) = t"
| "soup_text (Container ct ps) = []"

text \<open>
  The first chunk that \<^verbatim>\<open>decode_header(msg["Subject"])[0][0]\<close> gives: none when the
  header is absent (\<^verbatim>\<open>decode_header(None)\<close> raises \<^verbatim>\<open>TypeError\<close>), a \<^verbatim>\<open>str\<close>, or \<^verbatim>\<open>bytes\<close>
  together with what \<^verbatim>\<open>bytes.decode()\<close> makes of them.
\<close>

datatype subject_chunk =
    No_header
  | Str_chunk string
  | Bytes_chunk "exn + string"

text \<open>
  The value of the \<^verbatim>\<open>From\<close> header with the address that \<^verbatim>\<open>email.utils.parseaddr\<close>
  extracts from it (empty when it extracts none).
\<close>

record from_header =
  from_raw :: string
  from_addr :: string

record email_message =
  subject_header :: subject_chunk
  from_value :: "from_header option"
  content :: mime_part

text \<open>The \<^verbatim>\<open>for part in msg.walk()\<close> loop, with the body found so far.\<close>

fun scan_parts :: "mime_part list \<Rightarrow> string \<Rightarrow> exn + string" where
  "scan_parts [] body = Inr body"
| "scan_parts (part # parts) body =
     (if get_content_type part = ''text/plain'' then decoded_payload part
      else if get_content_type part = ''text/html'' then
        (case decoded_payload part of
           Inl e \<Rightarrow> Inl e
         | Inr raw_html \<Rightarrow> scan_parts parts (clean_html (soup_text part)))
      else scan_parts parts body)"

definition extract_body :: "mime_part \<Rightarrow> exn + string" where
  "extract_body msg =
     (if is_multipart msg then scan_parts (walk msg) []
      else if get_content_type msg = ''text/plain'' then decoded_payload msg
      else if get_content_type msg = ''text/html'' then
        (case decoded_payload msg of
           Inl e \<Rightarrow> Inl e
         | Inr raw_html \<Rightarrow> Inr (clean_html (soup_text msg)))
      else Inr [])"

definition decode_subject :: "subject_chunk \<Rightarrow> exn + string" where
  "decode_subject h =
     (case h of
        No_header \<Rightarrow> Inl (Exn ''TypeError''
          (''expected string or bytes-like object, got '' @ quoted ''NoneType''))
      | Str_chunk s \<Rightarrow> Inr s
      | Bytes_chunk d \<Rightarrow> d)"

text \<open>\<^verbatim>\<open>parse_email_content(msg)\<close>: the subject, the sender and the body, or the exception.\<close>

definition parse_email_content ::
  "email_message \<Rightarrow> exn + (string \<times> from_header option \<times> string)" where
  "parse_email_content msg =
     (case decode_subject (subject_header msg) of
        Inl e \<Rightarrow> Inl e
      | Inr subj \<Rightarrow>
         (case extract_body (content msg) of
            Inl e \<Rightarrow> Inl e
          | Inr body \<Rightarrow> Inr (subj, from_value msg, body)))"

subsection \<open>The body policy in the words of the specification\<close>

text \<open>
  The specification states the choice of the body as a policy: in a multi-part message
  the first \<^verbatim>\<open>text/plain\<close> part in the order of the walk; with no such part the last
  \<^verbatim>\<open>text/html\<close> part, cleaned; with neither the empty body. A single-part message gives
  its payload when it is \<^verbatim>\<open>text/plain\<close>, its cleaned text when it is \<^verbatim>\<open>text/html\<close>, and the
  empty body otherwise.
\<close>

fun payload_text :: "mime_part \<Rightarrow> string" where
  "payload_text (Leaf ct p t) = p"
| "payload_text (Container ct ps) = []"

definition spec_body_policy :: "mime_part \<Rightarrow> string" where
  "spec_body_policy msg =
     (if is_multipart msg then
        (case List.find (\<lambda>p. get_content_type p = ''text/plain'') (walk msg) of
           Some p \<Rightarrow> payload_text p
         | None \<Rightarrow>
            (case List.find (\<lambda>p. get_content_type p = ''text/html'') (rev (walk msg)) of
               Some p \<Rightarrow> clean_html (soup_text p)
             | None \<Rightarrow> []))
      else if get_content_type msg = ''text/plain'' then payload_text msg
      else if get_content_type msg = ''text/html'' then clean_html (soup_text msg)
      else [])"

text \<open>
  The parser of the \<^verbatim>\<open>email\<close> package gives parts only to messages whose main type is
  \<^verbatim>\<open>multipart\<close> or \<^verbatim>\<open>message\<close>: in what it builds, no container has a text type.
\<close>

definition text_types_are_leaves :: "mime_part list \<Rightarrow> bool" where
  "text_types_are_leaves ps =
     list_all (\<lambda>p. is_multipart p \<longrightarrow>
        get_content_type p \<noteq> ''text/plain'' \<and> get_content_type p \<noteq> ''text/html'') ps"

definition parser_shaped :: "mime_part \<Rightarrow> bool" where
  "parser_shaped msg = text_types_are_leaves (walk msg)"

text \<open>No two whitespace characters next to each other.\<close>

fun single_spaced :: "string \<Rightarrow> bool" where
  "single_spaced (a # b # cs) = (\<not> (isspace a \<and> isspace b) \<and> single_spaced (b # cs))"
| "single_spaced cs = True"

section \<open>Tickets\<close>

record ticket =
  email_id :: string
  subject :: string
  sender :: "from_header option"
  urgency :: json
  reasoning :: json
  summary :: json
  response :: string

text \<open>
  One unread message of the mailbox: its identifier, the message that \<^verbatim>\<open>mail.fetch\<close> and
  \<^verbatim>\<open>email.message_from_bytes\<close> give, and what the remote service does when the
  analysis client and the drafting client call it for this message.
\<close>

record unread =
  uid :: string
  fetched :: email_message
  analysis_call :: remote_call
  draft_call :: remote_call

fun is_dict :: "json \<Rightarrow> bool" where
  "is_dict (JObj kvs) = True"
| "is_dict v = False"

text \<open>The dictionary literal of \<^verbatim>\<open>main\<close>; each \<^verbatim>\<open>analysis.get\<close> can raise.\<close>

definition make_ticket ::
  "string \<Rightarrow> string \<Rightarrow> from_header option \<Rightarrow> json \<Rightarrow> string \<Rightarrow> exn + ticket" where
  "make_ticket i subj sndr analysis resp =
     (case dict_get analysis ''urgency'' (JStr ''Unknown'') of
        Inl e \<Rightarrow> Inl e
      | Inr u \<Rightarrow>
         (case dict_get analysis ''reasoning'' (JStr ''No reasoning provided'') of
            Inl e \<Rightarrow> Inl e
          | Inr r \<Rightarrow>
             (case dict_get analysis ''summary'' (JStr ''No summary available'') of
                Inl e \<Rightarrow> Inl e
              | Inr m \<Rightarrow>
                 Inr \<lparr>email_id = i, subject = subj, sender = sndr, urgency = u,
                      reasoning = r, summary = m, response = resp\<rparr>)))"

text \<open>The body of the \<^verbatim>\<open>for email_id in email_ids\<close> loop, for one message.\<close>

definition process_message :: "unread \<Rightarrow> exn + ticket" where
  "process_message m =
     (case parse_email_content (fetched m) of
        Inl e \<Rightarrow> Inl e
      | Inr (subj, sndr, body) \<Rightarrow>
         make_ticket (uid m) subj sndr
           (analyze_email_with_xai (analysis_call m) subj body)
           (generate_response_with_xai (draft_call m) subj body))"

text \<open>
  The loop itself, with the list \<open>tickets\<close> built so far. Nothing in \<^verbatim>\<open>main\<close> catches an
  exception of the loop body, so the first one ends the loop and the run.
\<close>

fun build_tickets :: "unread list \<Rightarrow> ticket list \<Rightarrow> exn + ticket list" where
  "build_tickets [] tickets = Inr tickets"
| "build_tickets (m # ms) tickets =
     (case process_message m of
        Inl e \<Rightarrow> Inl e
      | Inr t \<Rightarrow> build_tickets ms (tickets @ [t]))"

subsection \<open>Sorting\<close>

definition urgency_order :: "(string \<times> nat) list" where
  "urgency_order = [(''High'', 1), (''Medium'', 2), (''Low'', 3), (''Unknown'', 4)]"

text \<open>A \<^verbatim>\<open>list\<close> and a \<^verbatim>\<open>dict\<close> cannot be hashed, so they cannot be looked up in a \<^verbatim>\<open>dict\<close>.\<close>

fun hashable :: "json \<Rightarrow> bool" where
  "hashable (JArr xs) = False"
| "hashable (JObj kvs) = False"
| "hashable v = True"

text \<open>\<^verbatim>\<open>urgency_order.get(u, 4)\<close> for a value \<open>u\<close> that can be hashed: the keys are strings.\<close>

fun rank :: "json \<Rightarrow> nat" where
  "rank (JStr s) = (case map_of urgency_order s of Some r \<Rightarrow> r | None \<Rightarrow> 4)"
| "rank v = 4"

text \<open>The sort key \<^verbatim>\<open>lambda x: urgency_order.get(x["urgency"], 4)\<close>.\<close>

definition sort_key_of :: "ticket \<Rightarrow> exn + nat" where
  "sort_key_of x =
     (if hashable (urgency x) then Inr (rank (urgency x))
      else Inl (Exn ''TypeError'' (''unhashable type: '' @ quoted (type_name (urgency x)))))"

fun sort_keys :: "ticket list \<Rightarrow> exn + nat list" where
  "sort_keys [] = Inr []"
| "sort_keys (x # xs) =
     (case sort_key_of x of
        Inl e \<Rightarrow> Inl e
      | Inr k \<Rightarrow> (case sort_keys xs of Inl e \<Rightarrow> Inl e | Inr ks \<Rightarrow> Inr (k # ks)))"

text \<open>
  \<^verbatim>\<open>tickets.sort(key=...)\<close>: \<^verbatim>\<open>list.sort\<close> first computes the key of every element, in
  order, and an exception of the key function leaves the sort; then it sorts the
  elements by their keys, and the sort is stable.
\<close>

definition sort_tickets :: "ticket list \<Rightarrow> exn + ticket list" where
  "sort_tickets tickets =
     (case sort_keys tickets of
        Inl e \<Rightarrow> Inl e
      | Inr ks \<Rightarrow> Inr (map snd (sort_key fst (zip ks tickets))))"

section \<open>Interactive review loop\<close>

text \<open>
  What a run does to the world outside, in order: a reply that the SMTP server accepted
  for a recipient, a reply whose SMTP session raised, a message flagged \<^verbatim>\<open>\Seen\<close>, the
  line \<^verbatim>\<open>No unread emails found.\<close> printed, and the logout. The other prints and the log
  are left out.
\<close>

datatype event =
    Delivered string string string
  | Delivery_failed "string option" exn
  | Marked_seen string
  | No_unread_printed
  | Logged_out

text \<open>
  What the SMTP server does on one send, in the order of the statements of
  \<^verbatim>\<open>send_email\<close>:
  \<^item> \<open>Refused_early\<close>: an exception before any recipient is named, raised by
    \<^verbatim>\<open>smtplib.SMTP\<close>, \<^verbatim>\<open>starttls\<close>, \<^verbatim>\<open>login\<close> or by \<^verbatim>\<open>send_message\<close> up to the answer to
    \<^verbatim>\<open>MAIL FROM\<close>;
  \<^item> \<open>Refused_late\<close>: the exception that the answers to the recipients or to the data
    raise;
  \<^item> \<open>Accepted\<close>: the server accepts the recipients it is given and the data (an
    exception of the \<^verbatim>\<open>quit\<close> after that changes no event: the handler only prints).
\<close>

datatype smtp_answer =
    Refused_early exn
  | Refused_late exn
  | Accepted

text \<open>
  The state of the terminal and of the servers during a run: the lines the operator
  still types (\<^verbatim>\<open>input\<close> takes the first; with none left it raises \<^verbatim>\<open>EOFError\<close>), what
  the SMTP server does on each of the next sends (once the list is used up it accepts),
  and the events so far. An IMAP session that is open answers every command.
\<close>

record io =
  stdin :: "string list"
  smtp :: "smtp_answer list"
  trace :: "event list"

definition eof_error :: exn where
  "eof_error = Exn ''EOFError'' ''EOF when reading a line''"

text \<open>\<^verbatim>\<open>str.lower\<close> below code point 256.\<close>

definition lower_char :: "char \<Rightarrow> char" where
  "lower_char c = (let n = (of_char c :: nat) in
     if (65 \<le> n \<and> n \<le> 90) \<or> (192 \<le> n \<and> n \<le> 222 \<and> n \<noteq> 215)
     then char_of (n + 32) else c)"

definition lower :: "string \<Rightarrow> string" where
  "lower s = map lower_char s"

text \<open>
  The \<^verbatim>\<open>while True\<close> loops that ask for \<^verbatim>\<open>y\<close> or \<^verbatim>\<open>n\<close>: the answer in lower case and the lines
  left, or \<^verbatim>\<open>EOFError\<close>. Every turn of the loop takes one line.
\<close>

fun ask_yes_no :: "string list \<Rightarrow> exn + (string \<times> string list)" where
  "ask_yes_no [] = Inl eof_error"
| "ask_yes_no (l # ls) =
     (if lower l \<in> set [''y'', ''n''] then Inr (lower l, ls) else ask_yes_no ls)"

text \<open>
  With \<^verbatim>\<open>msg["To"] = None\<close> the message has no recipient field: \<^verbatim>\<open>send_message\<close> collects
  the empty list of recipients, and \<^verbatim>\<open>sendmail\<close>, once the sender is accepted, finds that
  all of them (none) were refused and raises \<^verbatim>\<open>SMTPRecipientsRefused({})\<close>. Every other
  value of \<^verbatim>\<open>To\<close> names at least one recipient.
\<close>

definition recipients_refused :: exn where
  "recipients_refused = Exn ''SMTPRecipientsRefused'' ''{}''"

text \<open>The event of one SMTP session, from the recipient and the answer of the server.\<close>

definition smtp_session :: "string option \<Rightarrow> string \<Rightarrow> string \<Rightarrow> smtp_answer \<Rightarrow> event" where
  "smtp_session to_address subj body answer =
     (case answer of
        Refused_early e \<Rightarrow> Delivery_failed to_address e
      | Refused_late e \<Rightarrow>
          (case to_address of
             None \<Rightarrow> Delivery_failed None recipients_refused
           | Some a \<Rightarrow> Delivery_failed to_address e)
      | Accepted \<Rightarrow>
          (case to_address of
             None \<Rightarrow> Delivery_failed None recipients_refused
           | Some a \<Rightarrow> Delivered a subj body))"

text \<open>
  \<^verbatim>\<open>send_email(to_address, subject, body)\<close>. The handler catches every exception of the
  SMTP session, and the function returns \<^verbatim>\<open>None\<close> on both paths.
\<close>

definition send_email :: "string option \<Rightarrow> string \<Rightarrow> string \<Rightarrow> io \<Rightarrow> io" where
  "send_email to_address subj body s =
     (let answer = (case smtp s of [] \<Rightarrow> Accepted | a # answers \<Rightarrow> a)
      in s\<lparr>smtp := tl (smtp s),
           trace := trace s @ [smtp_session to_address (''Re: '' @ subj) body answer]\<rparr>)"

text \<open>
  \<^verbatim>\<open>_, to_address = parseaddr(ticket["sender"])\<close>, then the raw sender when the address
  is empty. \<^verbatim>\<open>parseaddr(None)\<close> gives the empty address, and the raw sender is \<^verbatim>\<open>None\<close>.
\<close>

definition recipient :: "ticket \<Rightarrow> string option" where
  "recipient t =
     (case sender t of
        None \<Rightarrow> None
      | Some h \<Rightarrow> Some (if from_addr h = [] then from_raw h else from_addr h))"

text \<open>The part of the loop body after the edit question: the send question and its effects.\<close>

definition send_decision :: "ticket \<Rightarrow> io \<Rightarrow> (exn + ticket) \<times> io" where
  "send_decision t s =
     (case ask_yes_no (stdin s) of
        Inl e \<Rightarrow> (Inl e, s\<lparr>stdin := []\<rparr>)
      | Inr (choice, rest) \<Rightarrow>
          if choice = ''y'' then
            (let s1 = send_email (recipient t) (subject t) (response t) (s\<lparr>stdin := rest\<rparr>)
             in (Inr t, s1\<lparr>trace := trace s1 @ [Marked_seen (email_id t)]\<rparr>))
          else (Inr t, s\<lparr>stdin := rest\<rparr>))"

text \<open>The body of the \<^verbatim>\<open>for i, ticket in enumerate(tickets, 1)\<close> loop, for one ticket.\<close>

definition review_ticket :: "ticket \<Rightarrow> io \<Rightarrow> (exn + ticket) \<times> io" where
  "review_ticket t s =
     (case ask_yes_no (stdin s) of
        Inl e \<Rightarrow> (Inl e, s\<lparr>stdin := []\<rparr>)
      | Inr (edit, rest) \<Rightarrow>
          if edit = ''y'' then
            (case rest of
               [] \<Rightarrow> (Inl eof_error, s\<lparr>stdin := []\<rparr>)
             | l # ls \<Rightarrow> send_decision (t\<lparr>response := l\<rparr>) (s\<lparr>stdin := ls\<rparr>))
          else send_decision t (s\<lparr>stdin := rest\<rparr>))"

fun review_all :: "ticket list \<Rightarrow> io \<Rightarrow> (exn + ticket list) \<times> io" where
  "review_all [] s = (Inr [], s)"
| "review_all (t # ts) s =
     (case review_ticket t s of
        (Inl e, s1) \<Rightarrow> (Inl e, s1)
      | (Inr t1, s1) \<Rightarrow>
          (case review_all ts s1 of
             (Inl e, s2) \<Rightarrow> (Inl e, s2)
           | (Inr ts1, s2) \<Rightarrow> (Inr (t1 # ts1), s2)))"

section \<open>The run\<close>

text \<open>
  The world of one run: whether \<^verbatim>\<open>connect_to_email\<close> can open the session (the exception
  of \<^verbatim>\<open>IMAP4_SSL\<close>, \<^verbatim>\<open>login\<close> or \<^verbatim>\<open>select\<close>, or none), the status of the \<^verbatim>\<open>UNSEEN\<close> search,
  the unread messages in the order of the search, the lines the operator types and the
  behaviour of the SMTP server. The credentials are taken to be in the environment, so
  \<^verbatim>\<open>setup_credentials\<close> asks nothing.
\<close>

record world =
  connect :: "exn option"
  search_status :: string
  mailbox :: "unread list"
  keyboard :: "string list"
  smtp_server :: "smtp_answer list"

datatype ending =
    Returned
  | Exited nat
  | Raised exn

text \<open>
  \<^verbatim>\<open>connect_to_email(folder)\<close>: on an exception it prints the error and calls
  \<^verbatim>\<open>sys.exit(1)\<close>.
\<close>

definition connect_to_email :: "world \<Rightarrow> ending option" where
  "connect_to_email w = (case connect w of Some e \<Rightarrow> Some (Exited 1) | None \<Rightarrow> None)"

text \<open>
  \<^verbatim>\<open>main(args)\<close>: how the run ends, and its events. The search answers one line with the
  identifiers, which is empty exactly when there is no unread message.
\<close>

definition main :: "world \<Rightarrow> ending \<times> event list" where
  "main w =
     (case connect_to_email w of
        Some t \<Rightarrow> (t, [])
      | None \<Rightarrow>
          if search_status w \<noteq> ''OK'' \<or> mailbox w = [] then
            (Returned, [No_unread_printed, Logged_out])
          else
            (case build_tickets (mailbox w) [] of
               Inl e \<Rightarrow> (Raised e, [])
             | Inr tickets \<Rightarrow>
                 (case sort_tickets tickets of
                    Inl e \<Rightarrow> (Raised e, [])
                  | Inr sorted_tickets \<Rightarrow>
                      (case review_all sorted_tickets
                              \<lparr>stdin = keyboard w, smtp = smtp_server w, trace = []\<rparr> of
                         (Inl e, s) \<Rightarrow> (Raised e, trace s)
                       | (Inr reviewed, s) \<Rightarrow> (Returned, trace s @ [Logged_out])))))"


section \<open>Example data\<close>

text \<open>A ticket with a given identifier and urgency, for the examples below.\<close>

definition ticket_of :: "string \<Rightarrow> json \<Rightarrow> ticket" where
  "ticket_of i u =
     \<lparr>email_id = i, subject = ''Invoice'',
      sender = Some \<lparr>from_raw = ''Bob <bob@example.org>'', from_addr = ''bob@example.org''\<rparr>,
      urgency = u, reasoning = JStr ''Mentions a deadline'', summary = JStr ''Invoice is due'',
      response = ''Thanks, I will look into it.''\<rparr>"

text \<open>
  An unread message with a plain-text body and the given subject chunk, and what the
  remote service answers for it.
\<close>

definition unread_of :: "string \<Rightarrow> subject_chunk \<Rightarrow> remote_call \<Rightarrow> remote_call \<Rightarrow> unread" where
  "unread_of i h a d =
     \<lparr>uid = i,
      fetched = \<lparr>subject_header = h,
        from_value = Some \<lparr>from_raw = ''Bob <bob@example.org>'', from_addr = ''bob@example.org''\<rparr>,
        content = Leaf ''text/plain'' ''Please pay.'' ''Please pay.''\<rparr>,
      analysis_call = a, draft_call = d\<rparr>"

text \<open>A call that ends with status 200 and the given content, and a call that ends with 503.\<close>

definition answer :: "json \<Rightarrow> exn + json \<Rightarrow> remote_call" where
  "answer c d =
     \<lparr>host_lookup = None,
      post = Inr \<lparr>status_code = 200, http_error = [],
        json_body = Inr (JObj [(''choices'', JArr [JObj [(''message'', JObj [(''content'', c)])]])])\<rparr>,
      content_loads = d\<rparr>"

definition unavailable :: remote_call where
  "unavailable =
     \<lparr>host_lookup = None,
      post = Inr \<lparr>status_code = 503, http_error = ''503 Server Error: Service Unavailable'',
        json_body = Inl (Exn ''JSONDecodeError'' ''Expecting value: line 1 column 1 (char 0)'')\<rparr>,
      content_loads = Inr JNull\<rparr>"

section \<open>Properties of the two clients\<close>

lemma strip_empty_iff: "strip s = [] \<longleftrightarrow> (\<forall>ch\<in>set s. isspace ch)"
proof
  assume e: "strip s = []"
  then have all: "\<forall>ch\<in>set (dropWhile isspace s). isspace ch"
    unfolding strip_def by (simp only: rev_is_Nil_conv dropWhile_eq_Nil_conv set_rev)
  have "dropWhile isspace s = []"
  proof (rule ccontr)
    assume n: "dropWhile isspace s \<noteq> []"
    then have "\<not> isspace (hd (dropWhile isspace s))" by (rule hd_dropWhile)
    moreover have "hd (dropWhile isspace s) \<in> set (dropWhile isspace s)" using n by simp
    ultimately show False using all by blast
  qed
  then show "\<forall>ch\<in>set s. isspace ch" by (simp add: dropWhile_eq_Nil_conv)
next
  assume "\<forall>ch\<in>set s. isspace ch"
  then have "dropWhile isspace s = []" by (simp add: dropWhile_eq_Nil_conv)
  then show "strip s = []" by (simp add: strip_def del: dropWhile_eq_Nil_conv)
qed




text \<open>
  Claim C7, as the code has it. When the call fails, or its content is no string, the
  draft is the fixed acknowledgment, which is not empty. When the call gives a string
  content, the draft is that content without the whitespace at both ends; it is empty
  exactly when the content has nothing but whitespace.
\<close>

theorem generate_response_with_xai_results:
  "(request_content c = Inl e \<longrightarrow>
      generate_response_with_xai c subj body
        = ''Thank you for your email. I will get back to you soon.'')
   \<and> (request_content c = Inr v \<and> (\<forall>text. v \<noteq> JStr text) \<longrightarrow>
      generate_response_with_xai c subj body
        = ''Thank you for your email. I will get back to you soon.'')
   \<and> (request_content c = Inr (JStr text) \<longrightarrow>
      generate_response_with_xai c subj body = strip text
      \<and> (generate_response_with_xai c subj body = [] \<longleftrightarrow> (\<forall>ch\<in>set text. isspace ch)))"
proof (intro conjI impI)
  assume "request_content c = Inl e"
  then show "generate_response_with_xai c subj body
      = ''Thank you for your email. I will get back to you soon.''"
    by (simp add: generate_response_with_xai_def fallback_response_def)
next
  assume "request_content c = Inr v \<and> (\<forall>text. v \<noteq> JStr text)"
  then show "generate_response_with_xai c subj body
      = ''Thank you for your email. I will get back to you soon.''"
    by (cases v) (simp_all add: generate_response_with_xai_def fallback_response_def)
next
  assume r: "request_content c = Inr (JStr text)"
  then show g: "generate_response_with_xai c subj body = strip text"
    by (simp add: generate_response_with_xai_def)
  show "generate_response_with_xai c subj body = [] \<longleftrightarrow> (\<forall>ch\<in>set text. isspace ch)"
    by (simp only: g strip_empty_iff)
qed

theorem generate_response_with_xai_results_witness:
  "generate_response_with_xai
     \<lparr>host_lookup = None, post = Inl (Exn ''ConnectionError'' ''Max retries exceeded''),
      content_loads = Inr JNull\<rparr> ''Invoice'' ''Please pay''
     = ''Thank you for your email. I will get back to you soon.''
   \<and> generate_response_with_xai
     \<lparr>host_lookup = None,
      post = Inr \<lparr>status_code = 200, http_error = [],
        json_body = Inr (JObj [(''choices'',
          JArr [JObj [(''message'', JObj [(''content'', JNull)])]])])\<rparr>,
      content_loads = Inr JNull\<rparr> ''Invoice'' ''Please pay''
     = ''Thank you for your email. I will get back to you soon.''
   \<and> generate_response_with_xai
     \<lparr>host_lookup = None,
      post = Inr \<lparr>status_code = 200, http_error = [],
        json_body = Inr (JObj [(''choices'',
          JArr [JObj [(''message'', JObj [(''content'', JStr '' Will do. '')])]])])\<rparr>,
      content_loads = Inr JNull\<rparr> ''Invoice'' ''Please pay''
     = ''Will do.''"
proof -
  let ?c1 = "\<lparr>host_lookup = None, post = Inl (Exn ''ConnectionError'' ''Max retries exceeded''),
      content_loads = Inr JNull\<rparr>"
  let ?c2 = "\<lparr>host_lookup = None,
      post = Inr \<lparr>status_code = 200, http_error = [],
        json_body = Inr (JObj [(''choices'',
          JArr [JObj [(''message'', JObj [(''content'', JNull)])]])])\<rparr>,
      content_loads = Inr JNull\<rparr>"
  let ?c3 = "\<lparr>host_lookup = None,
      post = Inr \<lparr>status_code = 200, http_error = [],
        json_body = Inr (JObj [(''choices'',
          JArr [JObj [(''message'', JObj [(''content'', JStr '' Will do. '')])]])])\<rparr>,
      content_loads = Inr JNull\<rparr>"
  have r1: "request_content ?c1 = Inl (Exn ''ConnectionError'' ''Max retries exceeded'')"
    by (simp add: request_content_def)
  have r2: "request_content ?c2 = Inr JNull"
    by (simp add: request_content_def raise_for_status_def message_content_def)
  have r3: "request_content ?c3 = Inr (JStr '' Will do. '')"
    by (simp add: request_content_def raise_for_status_def message_content_def)
  have s3: "strip '' Will do. '' = ''Will do.''"
    by (simp add: strip_def isspace_def)
  show ?thesis
    using generate_response_with_xai_results
            [of ?c1 "Exn ''ConnectionError'' ''Max retries exceeded''" "''Invoice''" "''Please pay''"
                JNull "[]"]
          generate_response_with_xai_results
            [of ?c2 "Exn ''X'' []" "''Invoice''" "''Please pay''" JNull "[]"]
          generate_response_with_xai_results
            [of ?c3 "Exn ''X'' []" "''Invoice''" "''Please pay''" JNull "'' Will do. ''"]
          r1 r2 r3 s3
    by simp
qed

text \<open>
  Claim C7 as the specification states it fails: a successful call whose content is
  empty, or whitespace only, gives the empty draft.
\<close>

theorem generate_response_with_xai_counterexample:
  "generate_response_with_xai
     \<lparr>host_lookup = None,
      post = Inr \<lparr>status_code = 200, http_error = [],
        json_body = Inr (JObj [(''choices'',
          JArr [JObj [(''message'', JObj [(''content'', JStr ''  '')])]])])\<rparr>,
      content_loads = Inr JNull\<rparr> ''Invoice'' ''Please pay'' = []"
  by (simp add: generate_response_with_xai_def request_content_def raise_for_status_def
      message_content_def strip_def isspace_def)


section \<open>Properties of the sort\<close>

lemma sort_keys_Inr:
  "sort_keys ts = Inr ks \<Longrightarrow> ks = map (\<lambda>t. rank (urgency t)) ts"
  by (induction ts arbitrary: ks) (auto simp: sort_key_of_def split: sum.splits if_splits)

lemma sort_keys_hashable:
  "(\<forall>t\<in>set ts. hashable (urgency t)) \<Longrightarrow> sort_keys ts = Inr (map (\<lambda>t. rank (urgency t)) ts)"
  by (induction ts) (auto simp: sort_key_of_def)

lemma insort_decorated:
  "\<forall>p\<in>set ps. fst p = f (snd p) \<Longrightarrow>
   map snd (insort_key fst (f x, x) ps) = insort_key f x (map snd ps)"
  by (induction ps) auto

lemma sort_decorated:
  "map snd (sort_key fst (zip (map f xs) xs)) = sort_key f xs
   \<and> (\<forall>p\<in>set (sort_key fst (zip (map f xs) xs)). fst p = f (snd p))"
proof (induction xs)
  case Nil
  show ?case by simp
next
  case (Cons x xs)
  then show ?case
    using insort_decorated [of "sort_key fst (zip (map f xs) xs)" f x]
    by (auto simp: set_insort_key)
qed

lemma sort_tickets_Inr:
  "sort_tickets ts = Inr out \<Longrightarrow> out = sort_key (\<lambda>t. rank (urgency t)) ts"
  by (auto simp: sort_tickets_def sort_decorated dest!: sort_keys_Inr split: sum.splits)

lemma stable_on_urgency:
  "filter (\<lambda>t. urgency t = u) (sort_key (\<lambda>t. rank (urgency t)) ts) = filter (\<lambda>t. urgency t = u) ts"
proof -
  let ?f = "\<lambda>t. rank (urgency t)"
  have split: "\<And>xs. filter (\<lambda>t. urgency t = u) xs
      = filter (\<lambda>t. urgency t = u) (filter (\<lambda>t. ?f t = rank u) xs)"
    by (auto intro: filter_cong)
  have "filter (\<lambda>t. urgency t = u) (sort_key ?f ts)
      = filter (\<lambda>t. urgency t = u) (filter (\<lambda>t. ?f t = rank u) (sort_key ?f ts))"
    by (rule split)
  also have "\<dots> = filter (\<lambda>t. urgency t = u) (filter (\<lambda>t. ?f t = rank u) ts)"
    by (simp only: sort_key_stable)
  also have "\<dots> = filter (\<lambda>t. urgency t = u) ts"
    by (rule split [symmetric])
  finally show ?thesis .
qed

lemma rank_le_4: "rank v \<le> 4"
  by (cases v) (auto simp: urgency_order_def)

text \<open>
  Claim C5. The sort key is the rank \<open>High \<mapsto> 1\<close>, \<open>Medium \<mapsto> 2\<close>, \<open>Low \<mapsto> 3\<close>, \<open>Unknown \<mapsto> 4\<close>.
  The sort returns whenever every urgency can be hashed (every string, number, boolean
  and \<^verbatim>\<open>None\<close> can). What it returns is a rearrangement of the tickets in which the rank
  never decreases from a ticket to the next, and in which the tickets of equal urgency
  are in the order they had before.
\<close>

theorem sort_tickets_ascending_stable:
  "rank (JStr ''High'') = 1 \<and> rank (JStr ''Medium'') = 2
   \<and> rank (JStr ''Low'') = 3 \<and> rank (JStr ''Unknown'') = 4
   \<and> ((\<forall>t\<in>set ts. hashable (urgency t)) \<longrightarrow> (\<exists>sorted_ts. sort_tickets ts = Inr sorted_ts))
   \<and> (sort_tickets ts = Inr out \<longrightarrow>
        mset out = mset ts
      \<and> (\<forall>i. Suc i < length out \<longrightarrow> rank (urgency (out ! i)) \<le> rank (urgency (out ! Suc i)))
      \<and> (\<forall>u. filter (\<lambda>t. urgency t = u) out = filter (\<lambda>t. urgency t = u) ts))"
proof (intro conjI impI)
  show "rank (JStr ''High'') = 1" "rank (JStr ''Medium'') = 2"
       "rank (JStr ''Low'') = 3" "rank (JStr ''Unknown'') = 4"
    by (simp_all add: urgency_order_def)
next
  assume "\<forall>t\<in>set ts. hashable (urgency t)"
  then show "\<exists>sorted_ts. sort_tickets ts = Inr sorted_ts"
    by (simp add: sort_tickets_def sort_keys_hashable)
next
  assume "sort_tickets ts = Inr out"
  then have out: "out = sort_key (\<lambda>t. rank (urgency t)) ts"
    by (rule sort_tickets_Inr)
  show "mset out = mset ts"
    by (simp add: out)
  show "\<forall>u. filter (\<lambda>t. urgency t = u) out = filter (\<lambda>t. urgency t = u) ts"
    by (simp only: out stable_on_urgency) simp
  have "sorted (map (\<lambda>t. rank (urgency t)) out)"
    by (simp only: out sorted_sort_key)
  then have "\<forall>i. Suc i < length (map (\<lambda>t. rank (urgency t)) out) \<longrightarrow>
      map (\<lambda>t. rank (urgency t)) out ! i \<le> map (\<lambda>t. rank (urgency t)) out ! Suc i"
    by (simp only: sorted_iff_nth_Suc)
  then show "\<forall>i. Suc i < length out \<longrightarrow> rank (urgency (out ! i)) \<le> rank (urgency (out ! Suc i))"
    by simp
qed

theorem sort_tickets_ascending_stable_witness:
  "sort_tickets [ticket_of ''1'' (JStr ''Low''), ticket_of ''2'' (JStr ''Unknown''),
                 ticket_of ''3'' (JStr ''High''), ticket_of ''4'' (JStr ''Low'')]
     = Inr [ticket_of ''3'' (JStr ''High''), ticket_of ''1'' (JStr ''Low''),
            ticket_of ''4'' (JStr ''Low''), ticket_of ''2'' (JStr ''Unknown'')]
   \<and> rank (urgency (ticket_of ''1'' (JStr ''Low''))) \<le> rank (urgency (ticket_of ''4'' (JStr ''Low'')))
   \<and> filter (\<lambda>t. urgency t = JStr ''Low'')
        [ticket_of ''3'' (JStr ''High''), ticket_of ''1'' (JStr ''Low''),
         ticket_of ''4'' (JStr ''Low''), ticket_of ''2'' (JStr ''Unknown'')]
     = filter (\<lambda>t. urgency t = JStr ''Low'')
        [ticket_of ''1'' (JStr ''Low''), ticket_of ''2'' (JStr ''Unknown''),
         ticket_of ''3'' (JStr ''High''), ticket_of ''4'' (JStr ''Low'')]"
proof -
  let ?ts = "[ticket_of ''1'' (JStr ''Low''), ticket_of ''2'' (JStr ''Unknown''),
              ticket_of ''3'' (JStr ''High''), ticket_of ''4'' (JStr ''Low'')]"
  let ?out = "[ticket_of ''3'' (JStr ''High''), ticket_of ''1'' (JStr ''Low''),
               ticket_of ''4'' (JStr ''Low''), ticket_of ''2'' (JStr ''Unknown'')]"
  have h: "\<forall>t\<in>set ?ts. hashable (urgency t)"
    by (simp add: ticket_of_def)
  have s: "sort_tickets ?ts = Inr ?out"
    by (simp add: sort_tickets_def sort_key_of_def ticket_of_def urgency_order_def)
  have n: "Suc 1 < length ?out"
    by simp
  from sort_tickets_ascending_stable [of ?ts ?out] h s n
  have "rank (urgency (?out ! 1)) \<le> rank (urgency (?out ! Suc 1))"
    and "filter (\<lambda>t. urgency t = JStr ''Low'') ?out = filter (\<lambda>t. urgency t = JStr ''Low'') ?ts"
    by blast+
  with s show ?thesis by simp
qed

text \<open>
  Claim C10. A ticket whose urgency is a string other than \<^verbatim>\<open>High\<close>, \<^verbatim>\<open>Medium\<close>, \<^verbatim>\<open>Low\<close> and
  \<^verbatim>\<open>Unknown\<close> has the sort key 4, the key of \<^verbatim>\<open>Unknown\<close>. A batch whose urgencies are all
  strings is sorted without an exception, and in the sorted batch every ticket that comes
  after such a ticket has rank 4 as well: no ticket of a known, more urgent level follows.
\<close>

theorem unexpected_urgency_sorts_last:
  assumes "s \<notin> set [''High'', ''Medium'', ''Low'', ''Unknown'']"
  shows "sort_key_of (t\<lparr>urgency := JStr s\<rparr>) = Inr 4
     \<and> sort_key_of (t\<lparr>urgency := JStr ''Unknown''\<rparr>) = Inr 4
     \<and> ((\<forall>x\<in>set ts. \<exists>u. urgency x = JStr u) \<longrightarrow> (\<exists>sorted_ts. sort_tickets ts = Inr sorted_ts))
     \<and> (sort_tickets ts = Inr out \<and> i < j \<and> j < length out \<and> urgency (out ! i) = JStr s
          \<longrightarrow> rank (urgency (out ! j)) = 4)"
proof (intro conjI impI)
  show "sort_key_of (t\<lparr>urgency := JStr s\<rparr>) = Inr 4"
    using assms by (simp add: sort_key_of_def urgency_order_def)
  show "sort_key_of (t\<lparr>urgency := JStr ''Unknown''\<rparr>) = Inr 4"
    by (simp add: sort_key_of_def urgency_order_def)
next
  assume "\<forall>x\<in>set ts. \<exists>u. urgency x = JStr u"
  then have "\<forall>x\<in>set ts. hashable (urgency x)"
    by auto
  then show "\<exists>sorted_ts. sort_tickets ts = Inr sorted_ts"
    by (simp add: sort_tickets_def sort_keys_hashable)
next
  assume a: "sort_tickets ts = Inr out \<and> i < j \<and> j < length out \<and> urgency (out ! i) = JStr s"
  then have out: "out = sort_key (\<lambda>t. rank (urgency t)) ts"
    by (simp add: sort_tickets_Inr)
  have "sorted (map (\<lambda>t. rank (urgency t)) out)"
    by (simp only: out sorted_sort_key)
  then have "map (\<lambda>t. rank (urgency t)) out ! i \<le> map (\<lambda>t. rank (urgency t)) out ! j"
    using a by (simp add: sorted_iff_nth_mono del: nth_map)
  then have "rank (urgency (out ! i)) \<le> rank (urgency (out ! j))"
    using a by simp
  moreover have "rank (urgency (out ! i)) = 4"
    using a assms by (simp add: urgency_order_def)
  ultimately show "rank (urgency (out ! j)) = 4"
    using rank_le_4 [of "urgency (out ! j)"] by simp
qed

theorem unexpected_urgency_sorts_last_witness:
  "sort_key_of (ticket_of ''1'' (JStr ''Critical'')) = Inr 4
   \<and> sort_tickets [ticket_of ''1'' (JStr ''Critical''), ticket_of ''2'' (JStr ''Low''),
                   ticket_of ''3'' (JStr ''Unknown'')]
     = Inr [ticket_of ''2'' (JStr ''Low''), ticket_of ''1'' (JStr ''Critical''),
            ticket_of ''3'' (JStr ''Unknown'')]
   \<and> rank (urgency (ticket_of ''3'' (JStr ''Unknown''))) = 4"
proof -
  let ?ts = "[ticket_of ''1'' (JStr ''Critical''), ticket_of ''2'' (JStr ''Low''),
              ticket_of ''3'' (JStr ''Unknown'')]"
  let ?out = "[ticket_of ''2'' (JStr ''Low''), ticket_of ''1'' (JStr ''Critical''),
               ticket_of ''3'' (JStr ''Unknown'')]"
  have n: "''Critical'' \<notin> set [''High'', ''Medium'', ''Low'', ''Unknown'']"
    by simp
  have u: "(ticket_of ''1'' JNull)\<lparr>urgency := JStr ''Critical''\<rparr> = ticket_of ''1'' (JStr ''Critical'')"
    by (simp add: ticket_of_def)
  have h: "\<forall>x\<in>set ?ts. \<exists>u. urgency x = JStr u"
    by (simp add: ticket_of_def)
  have s: "sort_tickets ?ts = Inr ?out"
    by (simp add: sort_tickets_def sort_key_of_def ticket_of_def urgency_order_def)
  have p: "(1::nat) < 2 \<and> 2 < length ?out \<and> urgency (?out ! 1) = JStr ''Critical''"
    by (simp add: ticket_of_def)
  from unexpected_urgency_sorts_last
         [OF n, where t = "ticket_of ''1'' JNull" and ts = ?ts and out = ?out and i = 1 and j = 2]
       h u s p
  show ?thesis by simp
qed


section \<open>Properties of the content normalizer\<close>

lemma find_snoc:
  "List.find P (xs @ [x]) = (case List.find P xs of Some y \<Rightarrow> Some y | None \<Rightarrow> if P x then Some x else None)"
  by (induction xs) auto

lemma decoded_payload_leaf:
  "\<not> is_multipart p \<Longrightarrow> decoded_payload p = Inr (payload_text p)"
  by (cases p) auto

lemma scan_parts_policy:
  "text_types_are_leaves ps \<Longrightarrow>
   scan_parts ps body = Inr
     (case List.find (\<lambda>p. get_content_type p = ''text/plain'') ps of
        Some p \<Rightarrow> payload_text p
      | None \<Rightarrow>
         (case List.find (\<lambda>p. get_content_type p = ''text/html'') (rev ps) of
            Some p \<Rightarrow> clean_html (soup_text p)
          | None \<Rightarrow> body))"
proof (induction ps arbitrary: body)
  case Nil
  show ?case by simp
next
  case (Cons part parts)
  from Cons.prems have rest: "text_types_are_leaves parts"
    and leaf: "is_multipart part \<longrightarrow>
        get_content_type part \<noteq> ''text/plain'' \<and> get_content_type part \<noteq> ''text/html''"
    by (simp_all add: text_types_are_leaves_def)
  show ?case
  proof (cases "get_content_type part = ''text/plain''")
    case True
    with leaf show ?thesis by (simp add: decoded_payload_leaf)
  next
    case plain: False
    show ?thesis
    proof (cases "get_content_type part = ''text/html''")
      case True
      with leaf have d: "decoded_payload part = Inr (payload_text part)"
        by (simp add: decoded_payload_leaf)
      show ?thesis
        using plain True d Cons.IH [OF rest, of "clean_html (soup_text part)"]
        by (simp add: find_snoc split: option.splits)
    next
      case False
      show ?thesis
        using plain False Cons.IH [OF rest, of body]
        by (simp add: find_snoc split: option.splits)
    qed
  qed
qed

lemma isspace_space: "isspace CHR '' ''"
  by (simp add: isspace_def)

lemma sub_spaces_only_space:
  "c \<in> set (sub_spaces raw) \<Longrightarrow> isspace c \<Longrightarrow> c = CHR '' ''"
  by (induction raw rule: sub_spaces.induct) (auto split: if_splits)

lemma filter_dropWhile_not:
  "filter (\<lambda>c. \<not> P c) (dropWhile P xs) = filter (\<lambda>c. \<not> P c) xs"
  by (induction xs) auto

lemma filter_sub_spaces:
  "filter (\<lambda>c. \<not> isspace c) (sub_spaces raw) = filter (\<lambda>c. \<not> isspace c) raw"
  by (induction raw rule: sub_spaces.induct) (auto simp: isspace_space filter_dropWhile_not)

lemma sub_spaces_hd:
  "sub_spaces raw \<noteq> [] \<Longrightarrow> isspace (hd (sub_spaces raw)) \<longleftrightarrow> isspace (hd raw)"
  by (cases raw) (auto simp: isspace_space)

lemma sub_spaces_Nil: "sub_spaces raw = [] \<longleftrightarrow> raw = []"
  by (cases raw) auto

lemma single_spaced_Cons:
  "single_spaced (a # cs) \<longleftrightarrow> (cs = [] \<or> \<not> (isspace a \<and> isspace (hd cs))) \<and> single_spaced cs"
  by (cases cs) auto

lemma single_spaced_sub_spaces: "single_spaced (sub_spaces raw)"
proof (induction raw rule: sub_spaces.induct)
  case 1
  show ?case by simp
next
  case (2 c cs)
  show ?case
  proof (cases "isspace c")
    case True
    have "sub_spaces (dropWhile isspace cs) = [] \<or> \<not> isspace (hd (sub_spaces (dropWhile isspace cs)))"
      using hd_dropWhile [of isspace cs] sub_spaces_hd [of "dropWhile isspace cs"]
      by (auto simp: sub_spaces_Nil simp del: dropWhile_eq_Nil_conv)
    with True "2.IH"(1) show ?thesis
      by (auto simp: single_spaced_Cons)
  next
    case False
    with "2.IH"(2) show ?thesis
      by (auto simp: single_spaced_Cons)
  qed
qed

lemma single_spaced_append:
  "single_spaced (xs @ ys) \<Longrightarrow> single_spaced xs \<and> single_spaced ys"
proof (induction xs)
  case Nil
  then show ?case by simp
next
  case (Cons a xs)
  then show ?case
    by (cases xs) (auto simp: single_spaced_Cons)
qed

lemma strip_infix: "\<exists>pre suf. s = pre @ strip s @ suf"
proof -
  have a: "s = takeWhile isspace s @ dropWhile isspace s"
    by simp
  let ?d = "dropWhile isspace s"
  have "rev (takeWhile isspace (rev ?d) @ dropWhile isspace (rev ?d)) = ?d"
    by (simp only: takeWhile_dropWhile_id rev_rev_ident)
  then have b: "?d = strip s @ rev (takeWhile isspace (rev ?d))"
    by (simp only: rev_append strip_def)
  from a b have "s = takeWhile isspace s @ strip s @ rev (takeWhile isspace (rev ?d))"
    by simp
  then show ?thesis by blast
qed

lemma single_spaced_strip: "single_spaced s \<Longrightarrow> single_spaced (strip s)"
proof -
  assume s: "single_spaced s"
  obtain pre suf where "s = pre @ strip s @ suf"
    using strip_infix by blast
  with s have "single_spaced (pre @ strip s @ suf)" by simp
  then have "single_spaced (strip s @ suf)" by (blast dest: single_spaced_append)
  then show ?thesis by (blast dest: single_spaced_append)
qed

lemma set_strip: "set (strip s) \<subseteq> set s"
proof -
  obtain pre suf where "s = pre @ strip s @ suf"
    using strip_infix by blast
  then have "set s = set pre \<union> set (strip s) \<union> set suf"
    by (metis set_append sup_assoc)
  then show ?thesis by blast
qed

lemma filter_strip: "filter (\<lambda>c. \<not> isspace c) (strip s) = filter (\<lambda>c. \<not> isspace c) s"
proof -
  have "filter (\<lambda>c. \<not> isspace c) (strip s)
      = rev (filter (\<lambda>c. \<not> isspace c) (dropWhile isspace (rev (dropWhile isspace s))))"
    by (simp add: strip_def rev_filter)
  also have "\<dots> = rev (filter (\<lambda>c. \<not> isspace c) (rev (dropWhile isspace s)))"
    by (simp only: filter_dropWhile_not)
  also have "\<dots> = filter (\<lambda>c. \<not> isspace c) (dropWhile isspace s)"
    by (simp add: rev_filter)
  also have "\<dots> = filter (\<lambda>c. \<not> isspace c) s"
    by (simp only: filter_dropWhile_not)
  finally show ?thesis .
qed

lemma strip_ends:
  "strip s \<noteq> [] \<Longrightarrow> \<not> isspace (hd (strip s)) \<and> \<not> isspace (last (strip s))"
proof -
  assume n: "strip s \<noteq> []"
  let ?d = "dropWhile isspace s"
  let ?e = "dropWhile isspace (rev ?d)"
  have st: "strip s = rev ?e" by (simp add: strip_def)
  with n have e: "?e \<noteq> []" by simp
  then have he: "\<not> isspace (hd ?e)" by (rule hd_dropWhile)
  have l: "last (strip s) = hd ?e"
    using e by (simp add: st last_rev)
  have d: "?d \<noteq> []"
  proof
    assume "?d = []"
    then have "?e = []" by (simp del: dropWhile_eq_Nil_conv)
    with e show False by simp
  qed
  then have hd_d: "\<not> isspace (hd ?d)" by (rule hd_dropWhile)
  have "last (rev ?d) = hd ?d" using d by (simp add: last_rev)
  then have "\<not> isspace (last (rev ?d))" using hd_d by simp
  moreover have "rev ?d = takeWhile isspace (rev ?d) @ ?e" by simp
  ultimately have "last ?e = last (rev ?d)"
    using e by (metis last_appendR)
  then have "hd (strip s) = hd ?d"
    using e d by (simp add: st hd_rev last_rev)
  with hd_d he l show ?thesis by simp
qed

lemma extract_body_policy:
  "parser_shaped m \<Longrightarrow> extract_body m = Inr (spec_body_policy m)"
proof (cases m)
  case (Leaf ct p t)
  then show ?thesis
    by (simp add: extract_body_def spec_body_policy_def)
next
  case (Container ct ps)
  assume "parser_shaped m"
  then have "text_types_are_leaves (walk m)"
    by (simp add: parser_shaped_def)
  then have "scan_parts (walk m) [] = Inr
     (case List.find (\<lambda>p. get_content_type p = ''text/plain'') (walk m) of
        Some p \<Rightarrow> payload_text p
      | None \<Rightarrow>
         (case List.find (\<lambda>p. get_content_type p = ''text/html'') (rev (walk m)) of
            Some p \<Rightarrow> clean_html (soup_text p)
          | None \<Rightarrow> []))"
    by (rule scan_parts_policy)
  moreover have "is_multipart m"
    using Container by simp
  ultimately show ?thesis
    by (simp add: extract_body_def spec_body_policy_def)
qed

text \<open>
  Claim C6. For a message as the parser builds it, whose subject decodes, the body that
  \<^const>\<open>parse_email_content\<close> returns is the body of the policy: the first \<^verbatim>\<open>text/plain\<close>
  part of the walk, whatever comes before or after it; without one the last \<^verbatim>\<open>text/html\<close>
  part, cleaned; for a single part its payload or its cleaned text. The cleaned text has
  the characters of the extracted text that are no whitespace, in their order, separated
  by single spaces, with no whitespace at either end.
\<close>

theorem parse_email_content_body_policy:
  assumes "parser_shaped (content msg)"
    and "decode_subject (subject_header msg) = Inr subj"
  shows "parse_email_content msg = Inr (subj, from_value msg, spec_body_policy (content msg))
     \<and> single_spaced (clean_html raw)
     \<and> (\<forall>c\<in>set (clean_html raw). isspace c \<longrightarrow> c = CHR '' '')
     \<and> filter (\<lambda>c. \<not> isspace c) (clean_html raw) = filter (\<lambda>c. \<not> isspace c) raw
     \<and> (clean_html raw \<noteq> [] \<longrightarrow>
          \<not> isspace (hd (clean_html raw)) \<and> \<not> isspace (last (clean_html raw)))"
proof (intro conjI)
  show "parse_email_content msg = Inr (subj, from_value msg, spec_body_policy (content msg))"
    using assms by (simp add: parse_email_content_def extract_body_policy)
  show "single_spaced (clean_html raw)"
    by (simp add: clean_html_def single_spaced_strip single_spaced_sub_spaces)
  show "\<forall>c\<in>set (clean_html raw). isspace c \<longrightarrow> c = CHR '' ''"
    using set_strip [of "sub_spaces raw"] sub_spaces_only_space [of _ raw]
    by (auto simp: clean_html_def)
  show "filter (\<lambda>c. \<not> isspace c) (clean_html raw) = filter (\<lambda>c. \<not> isspace c) raw"
    by (simp only: clean_html_def filter_strip filter_sub_spaces)
  show "clean_html raw \<noteq> [] \<longrightarrow>
      \<not> isspace (hd (clean_html raw)) \<and> \<not> isspace (last (clean_html raw))"
    using strip_ends [of "sub_spaces raw"] by (simp add: clean_html_def)
qed

theorem parse_email_content_body_policy_witness:
  "parse_email_content
     \<lparr>subject_header = Str_chunk ''Invoice'', from_value = None,
      content = Container ''multipart/alternative''
        [Leaf ''text/html'' ''<p>Please   pay</p>'' ''Please   pay'',
         Leaf ''text/plain'' ''Please pay.'' ''Please pay.'',
         Leaf ''text/plain'' ''Second'' ''Second'']\<rparr>
     = Inr (''Invoice'', None, ''Please pay.'')
   \<and> parse_email_content
     \<lparr>subject_header = Str_chunk ''Invoice'', from_value = None,
      content = Container ''multipart/mixed''
        [Leaf ''text/html'' ''<p>One</p>'' ''One'',
         Leaf ''image/png'' [] [],
         Leaf ''text/html'' ''<p> Please   pay </p>'' '' Please   pay '']\<rparr>
     = Inr (''Invoice'', None, ''Please pay'')"
proof -
  let ?m1 = "\<lparr>subject_header = Str_chunk ''Invoice'', from_value = None,
      content = Container ''multipart/alternative''
        [Leaf ''text/html'' ''<p>Please   pay</p>'' ''Please   pay'',
         Leaf ''text/plain'' ''Please pay.'' ''Please pay.'',
         Leaf ''text/plain'' ''Second'' ''Second'']\<rparr>"
  let ?m2 = "\<lparr>subject_header = Str_chunk ''Invoice'', from_value = None,
      content = Container ''multipart/mixed''
        [Leaf ''text/html'' ''<p>One</p>'' ''One'',
         Leaf ''image/png'' [] [],
         Leaf ''text/html'' ''<p> Please   pay </p>'' '' Please   pay '']\<rparr>"
  have p1: "parser_shaped (content ?m1)" and p2: "parser_shaped (content ?m2)"
    by (simp_all add: parser_shaped_def text_types_are_leaves_def)
  have s1: "decode_subject (subject_header ?m1) = Inr ''Invoice''"
    and s2: "decode_subject (subject_header ?m2) = Inr ''Invoice''"
    by (simp_all add: decode_subject_def)
  have b1: "spec_body_policy (content ?m1) = ''Please pay.''"
    by (simp add: spec_body_policy_def)
  have c: "clean_html '' Please   pay '' = ''Please pay''"
    by (simp add: clean_html_def strip_def isspace_def)
  have b2: "spec_body_policy (content ?m2) = ''Please pay''"
    by (simp add: spec_body_policy_def c)
  from parse_email_content_body_policy [OF p1 s1] parse_email_content_body_policy [OF p2 s2] b1 b2
  show ?thesis by simp
qed


section \<open>Properties of the review loop\<close>

lemma ask_yes_no_skips:
  "\<forall>l\<in>set junk. lower l \<notin> set [''y'', ''n''] \<Longrightarrow> lower a \<in> set [''y'', ''n''] \<Longrightarrow>
   ask_yes_no (junk @ a # rest) = Inr (lower a, rest)"
  by (induction junk) auto

lemma send_decision_no:
  assumes "\<forall>l\<in>set junk. lower l \<notin> set [''y'', ''n'']"
    and "lower c = ''n''"
    and "stdin s = junk @ c # rest"
  shows "send_decision t s = (Inr t, s\<lparr>stdin := rest\<rparr>)"
proof -
  have "ask_yes_no (stdin s) = Inr (''n'', rest)"
    using ask_yes_no_skips [of junk c rest] assms by simp
  then show ?thesis
    by (simp add: send_decision_def)
qed


lemma review_ticket_edit:
  assumes "\<forall>l\<in>set junk. lower l \<notin> set [''y'', ''n'']"
    and "lower e = ''y''"
    and "stdin s = junk @ e # new # rest"
  shows "review_ticket t s = send_decision (t\<lparr>response := new\<rparr>) (s\<lparr>stdin := rest\<rparr>)"
proof -
  have "ask_yes_no (stdin s) = Inr (''y'', new # rest)"
    using ask_yes_no_skips [of junk e "new # rest"] assms by simp
  then show ?thesis
    by (simp add: review_ticket_def)
qed








text \<open>
  Claim C9. The operator answers yes to the edit question, types the new text, and answers
  no to the send question (invalid answers before either answer are asked again). The
  ticket then has exactly the new text as its response, with every other field as it
  was, and nothing else has changed: no reply has gone to the SMTP server and no message
  has been marked as read. The ticket of the code has no \<^verbatim>\<open>sent\<close> field; that no reply was
  sent shows in the events.
\<close>

theorem edit_then_decline:
  assumes "\<forall>l\<in>set junk1. lower l \<notin> set [''y'', ''n'']"
    and "\<forall>l\<in>set junk2. lower l \<notin> set [''y'', ''n'']"
    and "lower e = ''y''"
    and "lower c = ''n''"
    and "stdin s = junk1 @ [e, new] @ junk2 @ [c] @ rest"
  shows "review_ticket t s = (Inr (t\<lparr>response := new\<rparr>), s\<lparr>stdin := rest\<rparr>)
     \<and> response (t\<lparr>response := new\<rparr>) = new
     \<and> trace (snd (review_ticket t s)) = trace s
     \<and> smtp (snd (review_ticket t s)) = smtp s"
proof -
  have "stdin s = junk1 @ e # new # (junk2 @ c # rest)"
    using assms(5) by simp
  with assms(1) assms(3)
  have "review_ticket t s = send_decision (t\<lparr>response := new\<rparr>) (s\<lparr>stdin := junk2 @ c # rest\<rparr>)"
    by (rule review_ticket_edit)
  moreover have "send_decision (t\<lparr>response := new\<rparr>) (s\<lparr>stdin := junk2 @ c # rest\<rparr>)
      = (Inr (t\<lparr>response := new\<rparr>), s\<lparr>stdin := junk2 @ c # rest\<rparr>\<lparr>stdin := rest\<rparr>)"
    using assms(2) assms(4) by (rule send_decision_no) simp
  ultimately show ?thesis by simp
qed

theorem edit_then_decline_witness:
  "review_ticket (ticket_of ''7'' (JStr ''High''))
     \<lparr>stdin = [''Y'', ''I will pay on Monday.'', ''hm'', ''n'', ''y''], smtp = [Accepted],
      trace = [Marked_seen ''3'']\<rparr>
   = (Inr ((ticket_of ''7'' (JStr ''High''))\<lparr>response := ''I will pay on Monday.''\<rparr>),
      \<lparr>stdin = [''y''], smtp = [Accepted], trace = [Marked_seen ''3'']\<rparr>)"
proof -
  let ?s = "\<lparr>stdin = [''Y'', ''I will pay on Monday.'', ''hm'', ''n'', ''y''], smtp = [Accepted],
      trace = [Marked_seen ''3'']\<rparr>"
  have j0: "\<forall>l\<in>set ([]::string list). lower l \<notin> set [''y'', ''n'']"
    by simp
  have v: "lower ''hm'' = ''hm''" "lower ''Y'' = ''y''" "lower ''n'' = ''n''"
    by code_simp+
  have j2: "\<forall>l\<in>set [''hm'']. lower l \<notin> set [''y'', ''n'']"
    by (simp add: v)
  have e: "lower ''Y'' = ''y''" and c: "lower ''n'' = ''n''"
    by (simp_all add: v)
  have i: "stdin ?s = [] @ [''Y'', ''I will pay on Monday.''] @ [''hm''] @ [''n''] @ [''y'']"
    by simp
  from edit_then_decline [OF j0 j2 e c i, of "ticket_of ''7'' (JStr ''High'')"]
  show ?thesis by simp
qed


section \<open>Properties of the ticket-building loop\<close>

lemma make_ticket_email_id:
  "make_ticket i subj sndr analysis resp = Inr t \<Longrightarrow> email_id t = i"
  by (auto simp: make_ticket_def split: sum.splits)

lemma process_message_email_id:
  "process_message m = Inr t \<Longrightarrow> email_id t = uid m"
  by (auto simp: process_message_def split: sum.splits dest: make_ticket_email_id)

lemma build_tickets_Inr:
  "build_tickets ms tickets = Inr ts \<Longrightarrow>
   \<exists>new. ts = tickets @ new \<and> map email_id new = map uid ms"
proof (induction ms arbitrary: tickets)
  case Nil
  then show ?case by simp
next
  case (Cons m ms)
  from Cons.prems obtain t where t: "process_message m = Inr t"
    and rest: "build_tickets ms (tickets @ [t]) = Inr ts"
    by (auto split: sum.splits)
  from Cons.IH [OF rest] obtain new where "ts = (tickets @ [t]) @ new"
    and "map email_id new = map uid ms"
    by blast
  with process_message_email_id [OF t]
  have "ts = tickets @ (t # new) \<and> map email_id (t # new) = map uid (m # ms)"
    by simp
  then show ?case by blast
qed

lemma build_tickets_total:
  "\<forall>m\<in>set ms. \<not> isl (process_message m) \<Longrightarrow> \<exists>ts. build_tickets ms tickets = Inr ts"
proof (induction ms arbitrary: tickets)
  case Nil
  show ?case by simp
next
  case (Cons m ms)
  from Cons.prems obtain t where t: "process_message m = Inr t"
    by (cases "process_message m") auto
  from Cons.prems have "\<forall>m\<in>set ms. \<not> isl (process_message m)" by simp
  from Cons.IH [OF this, of "tickets @ [t]"] t show ?case by simp
qed

lemma make_ticket_dict:
  "is_dict analysis \<Longrightarrow> \<not> isl (make_ticket i subj sndr analysis resp)"
  by (cases analysis) (simp_all add: make_ticket_def)

lemma process_message_total:
  "\<not> isl (parse_email_content (fetched m)) \<Longrightarrow>
   is_dict (analyze_email_with_xai (analysis_call m) [] []) \<Longrightarrow>
   \<not> isl (process_message m)"
proof -
  assume p: "\<not> isl (parse_email_content (fetched m))"
    and d: "is_dict (analyze_email_with_xai (analysis_call m) [] [])"
  from p obtain subj sndr body where "parse_email_content (fetched m) = Inr (subj, sndr, body)"
    by (cases "parse_email_content (fetched m)") auto
  moreover have "analyze_email_with_xai (analysis_call m) subj body
      = analyze_email_with_xai (analysis_call m) [] []"
    by (simp add: analyze_email_with_xai_def)
  ultimately show ?thesis
    using d by (simp add: process_message_def make_ticket_dict)
qed

lemma process_message_degraded:
  assumes "parse_email_content (fetched m) = Inr (subj, sndr, body)"
    and "request_content (analysis_call m) = Inl ea"
    and "request_content (draft_call m) = Inl ed"
  shows "process_message m = Inr
     \<lparr>email_id = uid m, subject = subj, sender = sndr, urgency = JStr ''Unknown'',
      reasoning = JStr (''API error: '' @ exn_str ea),
      summary = JStr ''Unable to summarize due to API failure'',
      response = ''Thank you for your email. I will get back to you soon.''\<rparr>"
  using assms
  by (simp add: process_message_def make_ticket_def analyze_email_with_xai_def api_failure_def
      generate_response_with_xai_def fallback_response_def)

lemma build_tickets_each:
  "build_tickets ms tickets = Inr ts \<Longrightarrow>
   \<exists>new. ts = tickets @ new \<and> list_all2 (\<lambda>m t. process_message m = Inr t) ms new"
proof (induction ms arbitrary: tickets)
  case Nil
  then show ?case by simp
next
  case (Cons m ms)
  from Cons.prems obtain t where t: "process_message m = Inr t"
    and rest: "build_tickets ms (tickets @ [t]) = Inr ts"
    by (auto split: sum.splits)
  from Cons.IH [OF rest] obtain new where "ts = (tickets @ [t]) @ new"
    and "list_all2 (\<lambda>m t. process_message m = Inr t) ms new"
    by blast
  with t have "ts = tickets @ (t # new)
      \<and> list_all2 (\<lambda>m t. process_message m = Inr t) (m # ms) (t # new)"
    by simp
  then show ?case by blast
qed

text \<open>
  Claim C4, as the code has it. When the loop over the unread messages comes to its end,
  it has made one ticket for each message, in the order of the messages. It comes to its
  end when every message can be normalised and every analysis gives a dictionary. That
  is so in particular when every analysis call and every drafting call fails: the tickets
  are then the degraded ones.
\<close>

theorem one_ticket_per_message:
  "(build_tickets ms [] = Inr ts \<longrightarrow> length ts = length ms \<and> map email_id ts = map uid ms)
   \<and> ((\<forall>m\<in>set ms. \<not> isl (parse_email_content (fetched m))
                   \<and> is_dict (analyze_email_with_xai (analysis_call m) [] []))
        \<longrightarrow> (\<exists>made. build_tickets ms [] = Inr made \<and> length made = length ms))
   \<and> ((\<forall>m\<in>set ms. \<not> isl (parse_email_content (fetched m))
                   \<and> isl (request_content (analysis_call m))
                   \<and> isl (request_content (draft_call m)))
        \<longrightarrow> (\<exists>made. build_tickets ms [] = Inr made \<and> length made = length ms
              \<and> (\<forall>t\<in>set made. urgency t = JStr ''Unknown''
                    \<and> response t = ''Thank you for your email. I will get back to you soon.'')))"
proof (intro conjI impI)
  assume b: "build_tickets ms [] = Inr ts"
  from build_tickets_Inr [OF b] have m: "map email_id ts = map uid ms" by simp
  then have "length (map email_id ts) = length (map uid ms)" by simp
  then have "length ts = length ms" by simp
  with m show "length ts = length ms" "map email_id ts = map uid ms" by simp_all
next
  assume a: "\<forall>m\<in>set ms. \<not> isl (parse_email_content (fetched m))
                   \<and> is_dict (analyze_email_with_xai (analysis_call m) [] [])"
  then have "\<forall>m\<in>set ms. \<not> isl (process_message m)"
    by (simp add: process_message_total)
  then obtain made where b: "build_tickets ms [] = Inr made"
    using build_tickets_total by blast
  from build_tickets_Inr [OF b] have "length (map email_id made) = length (map uid ms)" by simp
  with b show "\<exists>made. build_tickets ms [] = Inr made \<and> length made = length ms" by simp
next
  assume a: "\<forall>m\<in>set ms. \<not> isl (parse_email_content (fetched m))
                   \<and> isl (request_content (analysis_call m))
                   \<and> isl (request_content (draft_call m))"
  have deg: "\<And>m t. m \<in> set ms \<Longrightarrow> process_message m = Inr t \<Longrightarrow>
      urgency t = JStr ''Unknown''
      \<and> response t = ''Thank you for your email. I will get back to you soon.''"
  proof -
    fix m t
    assume "m \<in> set ms" and pm: "process_message m = Inr t"
    with a obtain x ea ed where "parse_email_content (fetched m) = Inr x"
      and "request_content (analysis_call m) = Inl ea"
      and "request_content (draft_call m) = Inl ed"
      by (metis isl_def sum.collapse(2))
    then show "urgency t = JStr ''Unknown''
      \<and> response t = ''Thank you for your email. I will get back to you soon.''"
      using pm process_message_degraded [of m "fst x" "fst (snd x)" "snd (snd x)" ea ed]
      by auto
  qed
  have "\<forall>m\<in>set ms. \<not> isl (process_message m)"
  proof
    fix m
    assume "m \<in> set ms"
    with a obtain x ea ed where "parse_email_content (fetched m) = Inr x"
      and "request_content (analysis_call m) = Inl ea"
      and "request_content (draft_call m) = Inl ed"
      by (metis isl_def sum.collapse(2))
    then show "\<not> isl (process_message m)"
      using process_message_degraded [of m "fst x" "fst (snd x)" "snd (snd x)" ea ed]
      by simp
  qed
  then obtain made where b: "build_tickets ms [] = Inr made"
    using build_tickets_total by blast
  from build_tickets_Inr [OF b] have "length (map email_id made) = length (map uid ms)" by simp
  then have len: "length made = length ms" by simp
  from build_tickets_each [OF b]
  have each: "list_all2 (\<lambda>m t. process_message m = Inr t) ms made" by simp
  have "\<forall>t\<in>set made. urgency t = JStr ''Unknown''
      \<and> response t = ''Thank you for your email. I will get back to you soon.''"
  proof
    fix t
    assume "t \<in> set made"
    then obtain n where n: "n < length made" and tn: "made ! n = t"
      by (auto simp: in_set_conv_nth)
    from each n have "process_message (ms ! n) = Inr (made ! n)"
      by (simp add: list_all2_conv_all_nth)
    moreover from n len have "ms ! n \<in> set ms" by simp
    ultimately show "urgency t = JStr ''Unknown''
      \<and> response t = ''Thank you for your email. I will get back to you soon.''"
      using deg tn by blast
  qed
  with b len show "\<exists>made. build_tickets ms [] = Inr made \<and> length made = length ms
      \<and> (\<forall>t\<in>set made. urgency t = JStr ''Unknown''
            \<and> response t = ''Thank you for your email. I will get back to you soon.'')"
    by blast
qed

lemma unavailable_fails:
  "request_content unavailable = Inl (Exn ''HTTPError'' ''503 Server Error: Service Unavailable'')"
  by (simp add: request_content_def unavailable_def raise_for_status_def)

lemma answer_content: "request_content (answer c d) = Inr c"
  by (simp add: request_content_def answer_def raise_for_status_def message_content_def)

lemma answer_loads: "content_loads (answer c d) = d"
  by (simp add: answer_def)

lemma unread_of_parses:
  "parse_email_content (fetched (unread_of i (Str_chunk s) a d))
     = Inr (s, Some \<lparr>from_raw = ''Bob <bob@example.org>'', from_addr = ''bob@example.org''\<rparr>,
            ''Please pay.'')"
  by (simp add: unread_of_def parse_email_content_def decode_subject_def extract_body_def)

lemma unread_of_fields:
  "uid (unread_of i h a d) = i" "analysis_call (unread_of i h a d) = a"
  "draft_call (unread_of i h a d) = d"
  by (simp_all add: unread_of_def)

theorem one_ticket_per_message_witness:
  "build_tickets
     [unread_of ''1'' (Str_chunk ''Invoice'') unavailable unavailable,
      unread_of ''2'' (Str_chunk ''Hello'') unavailable unavailable] []
   = Inr
     [\<lparr>email_id = ''1'', subject = ''Invoice'',
       sender = Some \<lparr>from_raw = ''Bob <bob@example.org>'', from_addr = ''bob@example.org''\<rparr>,
       urgency = JStr ''Unknown'',
       reasoning = JStr ''API error: 503 Server Error: Service Unavailable'',
       summary = JStr ''Unable to summarize due to API failure'',
       response = ''Thank you for your email. I will get back to you soon.''\<rparr>,
      \<lparr>email_id = ''2'', subject = ''Hello'',
       sender = Some \<lparr>from_raw = ''Bob <bob@example.org>'', from_addr = ''bob@example.org''\<rparr>,
       urgency = JStr ''Unknown'',
       reasoning = JStr ''API error: 503 Server Error: Service Unavailable'',
       summary = JStr ''Unable to summarize due to API failure'',
       response = ''Thank you for your email. I will get back to you soon.''\<rparr>]
   \<and> length
     [unread_of ''1'' (Str_chunk ''Invoice'') unavailable unavailable,
      unread_of ''2'' (Str_chunk ''Hello'') unavailable unavailable] = 2"
proof -
  let ?ms = "[unread_of ''1'' (Str_chunk ''Invoice'') unavailable unavailable,
              unread_of ''2'' (Str_chunk ''Hello'') unavailable unavailable]"
  let ?ts = "[\<lparr>email_id = ''1'', subject = ''Invoice'',
       sender = Some \<lparr>from_raw = ''Bob <bob@example.org>'', from_addr = ''bob@example.org''\<rparr>,
       urgency = JStr ''Unknown'',
       reasoning = JStr ''API error: 503 Server Error: Service Unavailable'',
       summary = JStr ''Unable to summarize due to API failure'',
       response = ''Thank you for your email. I will get back to you soon.''\<rparr>,
      \<lparr>email_id = ''2'', subject = ''Hello'',
       sender = Some \<lparr>from_raw = ''Bob <bob@example.org>'', from_addr = ''bob@example.org''\<rparr>,
       urgency = JStr ''Unknown'',
       reasoning = JStr ''API error: 503 Server Error: Service Unavailable'',
       summary = JStr ''Unable to summarize due to API failure'',
       response = ''Thank you for your email. I will get back to you soon.''\<rparr>]"
  have h: "\<forall>m\<in>set ?ms. \<not> isl (parse_email_content (fetched m))
                   \<and> isl (request_content (analysis_call m))
                   \<and> isl (request_content (draft_call m))"
    by (simp add: unread_of_parses unread_of_fields unavailable_fails)
  have b: "build_tickets ?ms [] = Inr ?ts"
    by (simp add: process_message_def unread_of_parses unread_of_fields make_ticket_def
        analyze_email_with_xai_def generate_response_with_xai_def unavailable_fails
        api_failure_def fallback_response_def)
  from one_ticket_per_message [of ?ms ?ts] h b
  have "length ?ts = length ?ms"
    and "\<exists>made. build_tickets ?ms [] = Inr made \<and> length made = length ?ms
      \<and> (\<forall>t\<in>set made. urgency t = JStr ''Unknown''
            \<and> response t = ''Thank you for your email. I will get back to you soon.'')"
    by blast+
  with b show ?thesis by simp
qed

text \<open>
  Claim C4 as the specification states it fails. The second of two unread messages gets
  an analysis whose content is the JSON text \<^verbatim>\<open>[]\<close>; \<^verbatim>\<open>json.loads\<close> gives a list, on which
  \<^verbatim>\<open>analysis.get\<close> raises. Nothing catches the exception: the loop ends without a ticket
  for either message.
\<close>

theorem one_ticket_per_message_counterexample:
  "build_tickets
     [unread_of ''1'' (Str_chunk ''Invoice'') unavailable unavailable,
      unread_of ''2'' (Str_chunk ''Hello'') (answer (JStr ''[]'') (Inr (JArr []))) unavailable] []
   = Inl (Exn ''AttributeError'' (quoted ''list'' @ '' object has no attribute '' @ quoted ''get''))"
  by (simp add: process_message_def unread_of_parses unread_of_fields make_ticket_def
      analyze_email_with_xai_def generate_response_with_xai_def unavailable_fails
      api_failure_def fallback_response_def answer_content answer_loads)









section \<open>Properties of the run\<close>

lemma send_email_no_logout:
  "count_list (trace (send_email to_address subj body s)) Logged_out = count_list (trace s) Logged_out"
  by (simp add: send_email_def smtp_session_def Let_def
      split: list.splits smtp_answer.splits option.splits)

lemma send_decision_no_logout:
  "count_list (trace (snd (send_decision t s))) Logged_out = count_list (trace s) Logged_out"
  by (simp add: send_decision_def Let_def send_email_no_logout split: sum.splits prod.splits)

lemma review_ticket_no_logout:
  "count_list (trace (snd (review_ticket t s))) Logged_out = count_list (trace s) Logged_out"
  by (simp add: review_ticket_def send_decision_no_logout split: sum.splits prod.splits list.splits)

lemma review_all_no_logout:
  "count_list (trace (snd (review_all ts s))) Logged_out = count_list (trace s) Logged_out"
proof (induction ts arbitrary: s)
  case Nil
  show ?case by simp
next
  case (Cons t ts)
  obtain r s1 where r: "review_ticket t s = (r, s1)"
    by (cases "review_ticket t s")
  have s1: "count_list (trace s1) Logged_out = count_list (trace s) Logged_out"
    using review_ticket_no_logout [of t s] r by simp
  show ?case
  proof (cases r)
    case (Inl e)
    with r s1 show ?thesis by simp
  next
    case (Inr t1)
    obtain r2 s2 where r2: "review_all ts s1 = (r2, s2)"
      by (cases "review_all ts s1")
    have "count_list (trace s2) Logged_out = count_list (trace s1) Logged_out"
      using Cons.IH [of s1] r2 by simp
    with r Inr r2 s1 show ?thesis
      by (cases r2) simp_all
  qed
qed

text \<open>
  Claim C8, as far as the code keeps it. With the session open and no unread message (or
  a search that does not answer \<^verbatim>\<open>OK\<close>), the run prints that there is no unread mail, logs
  out and returns, with no ticket built. Every run that returns from \<^verbatim>\<open>main\<close> has logged
  out exactly once, and the logout is its last event.
\<close>

theorem logout_once:
  "(connect w = None \<and> (search_status w \<noteq> ''OK'' \<or> mailbox w = []) \<longrightarrow>
      main w = (Returned, [No_unread_printed, Logged_out]))
   \<and> (main w = (Returned, events) \<longrightarrow>
      count_list events Logged_out = 1 \<and> last events = Logged_out)"
proof (intro conjI impI)
  assume "connect w = None \<and> (search_status w \<noteq> ''OK'' \<or> mailbox w = [])"
  then show "main w = (Returned, [No_unread_printed, Logged_out])"
    by (auto simp: main_def connect_to_email_def)
next
  assume m: "main w = (Returned, events)"
  have c: "connect w = None"
    using m by (cases "connect w") (simp_all add: main_def connect_to_email_def)
  have "count_list events Logged_out = 1 \<and> last events = Logged_out"
  proof (cases "search_status w \<noteq> ''OK'' \<or> mailbox w = []")
    case True
    with c m have "events = [No_unread_printed, Logged_out]"
      by (auto simp: main_def connect_to_email_def)
    then show ?thesis by simp
  next
    case False
    let ?s0 = "\<lparr>stdin = keyboard w, smtp = smtp_server w, trace = []\<rparr>"
    from False c m obtain tickets sorted_tickets reviewed s
      where "build_tickets (mailbox w) [] = Inr tickets"
        and "sort_tickets tickets = Inr sorted_tickets"
        and r: "review_all sorted_tickets ?s0 = (Inr reviewed, s)"
        and e: "events = trace s @ [Logged_out]"
      by (auto simp: main_def connect_to_email_def split: sum.splits prod.splits)
    have "count_list (trace s) Logged_out = count_list (trace ?s0) Logged_out"
      using review_all_no_logout [of sorted_tickets ?s0] r by simp
    then have "count_list (trace s) Logged_out = 0" by simp
    with e show ?thesis by simp
  qed
  then show "count_list events Logged_out = 1" "last events = Logged_out"
    by simp_all
qed

theorem logout_once_witness:
  "main \<lparr>connect = None, search_status = ''OK'', mailbox = [], keyboard = [], smtp_server = []\<rparr>
     = (Returned, [No_unread_printed, Logged_out])
   \<and> main \<lparr>connect = None, search_status = ''OK'',
         mailbox = [unread_of ''1'' (Str_chunk ''Invoice'') unavailable unavailable],
         keyboard = [''n'', ''y''],
         smtp_server = [Refused_late (Exn ''SMTPServerDisconnected'' ''Connection unexpectedly closed'')]\<rparr>
     = (Returned,
        [Delivery_failed (Some ''bob@example.org'')
           (Exn ''SMTPServerDisconnected'' ''Connection unexpectedly closed''),
         Marked_seen ''1'', Logged_out])
   \<and> count_list
        [Delivery_failed (Some ''bob@example.org'')
           (Exn ''SMTPServerDisconnected'' ''Connection unexpectedly closed''),
         Marked_seen ''1'', Logged_out] Logged_out = 1"
proof -
  let ?w0 = "\<lparr>connect = None, search_status = ''OK'', mailbox = [], keyboard = [], smtp_server = []\<rparr>"
  let ?w1 = "\<lparr>connect = None, search_status = ''OK'',
         mailbox = [unread_of ''1'' (Str_chunk ''Invoice'') unavailable unavailable],
         keyboard = [''n'', ''y''],
         smtp_server = [Refused_late (Exn ''SMTPServerDisconnected'' ''Connection unexpectedly closed'')]\<rparr>"
  let ?ev = "[Delivery_failed (Some ''bob@example.org'')
           (Exn ''SMTPServerDisconnected'' ''Connection unexpectedly closed''),
         Marked_seen ''1'', Logged_out]"
  have v: "lower ''n'' = ''n''" "lower ''y'' = ''y''"
    by code_simp+
  have h0: "connect ?w0 = None \<and> (search_status ?w0 \<noteq> ''OK'' \<or> mailbox ?w0 = [])"
    by simp
  have b: "build_tickets [unread_of ''1'' (Str_chunk ''Invoice'') unavailable unavailable] [] = Inr
     [\<lparr>email_id = ''1'', subject = ''Invoice'',
       sender = Some \<lparr>from_raw = ''Bob <bob@example.org>'', from_addr = ''bob@example.org''\<rparr>,
       urgency = JStr ''Unknown'',
       reasoning = JStr ''API error: 503 Server Error: Service Unavailable'',
       summary = JStr ''Unable to summarize due to API failure'',
       response = ''Thank you for your email. I will get back to you soon.''\<rparr>]"
    by (simp add: process_message_def unread_of_parses unread_of_fields make_ticket_def
        analyze_email_with_xai_def generate_response_with_xai_def unavailable_fails
        api_failure_def fallback_response_def)
  have m1: "main ?w1 = (Returned, ?ev)"
    by (simp add: main_def connect_to_email_def sort_tickets_def sort_key_of_def
        urgency_order_def review_ticket_def send_decision_def send_email_def smtp_session_def
        recipient_def v
        b [simplified])
  from logout_once [of ?w0 "[No_unread_printed, Logged_out]"] h0
       logout_once [of ?w1 ?ev] m1
  show ?thesis by simp
qed

text \<open>
  Claim C8 as the specification states it fails. The session is open and the one unread
  message has a subject whose bytes are no UTF-8, so \<^verbatim>\<open>subject.decode()\<close> raises in
  \<^const>\<open>parse_email_content\<close>. \<^verbatim>\<open>main\<close> has no \<^verbatim>\<open>finally\<close>: the exception leaves it and the run ends
  with the session never logged out.
\<close>

theorem logout_once_counterexample:
  "main \<lparr>connect = None, search_status = ''OK'',
         mailbox = [unread_of ''1''
           (Bytes_chunk (Inl (Exn ''UnicodeDecodeError''
              (quoted ''utf-8'' @ '' codec can'' @ [CHR 0x27]
                 @ ''t decode byte 0xff in position 0: invalid start byte''))))
           unavailable unavailable],
         keyboard = [''n'', ''n''], smtp_server = []\<rparr>
   = (Raised (Exn ''UnicodeDecodeError''
        (quoted ''utf-8'' @ '' codec can'' @ [CHR 0x27]
           @ ''t decode byte 0xff in position 0: invalid start byte'')), [])"
  by (simp add: main_def connect_to_email_def process_message_def unread_of_def
      parse_email_content_def decode_subject_def)

end
